theory Spec2Isabelle
  imports Main "HOL-Library.Word" "HOL-Library.AList"
begin

section \<open>The subscription client of rest\_rpc (async\_sub\_session.hpp)\<close>

text \<open>
  The file holds two classes: \<open>sub_session\<close>, the asynchronous state machine of one
  subscription, and \<open>sub_manager\<close>, the registry of sessions keyed by endpoint and
  topic. Every member function is embedded as a HOL function of the same name. A member
  function that mutates the session returns the new session; the asynchronous
  operations it issues and the callbacks it invokes are returned as a list of actions,
  in program order.
\<close>

subsection \<open>Protocol data\<close>

text \<open>\<open>char\<close> buffers (\<open>std::string\<close>, \<open>std::vector<char>\<close>).\<close>

type_synonym bytes = "char list"

text \<open>
  \<open>head_t\<close>: its declaration is in forward.hpp; the session uses the fields \<open>len\<close>
  and \<open>code\<close>, both \<open>uint32\<close>. \<open>{ 0 }\<close> zero-initialises both.
\<close>

record head_t =
  len :: "32 word"
  code :: "32 word"

definition head_zero :: head_t where
  "head_zero = \<lparr>len = 0, code = 0\<rparr>"

text \<open>
  Modelled from the spec: the enumeration \<open>result_code\<close> is declared outside this
  file; the spec fixes \<open>OK = 0\<close> and every other value as a failure.
\<close>

definition result_code_OK :: "32 word" where
  "result_code_OK = 0"

text \<open>
  Modelled from the spec: the enumeration \<open>error_code\<close> is declared outside this
  file. The file itself names \<open>BADCONNECTION\<close> and \<open>UNKNOWN\<close>; the other kinds
  are those of the spec's error taxonomy (ServerRejected, MalformedHandshakeReply,
  AlreadySubscribed).
\<close>

datatype error_code =
    UNKNOWN
  | BADCONNECTION
  | SERVER_REJECTED
  | MALFORMED_HANDSHAKE_REPLY
  | ALREADY_SUBSCRIBED

text \<open>\<open>exception{ code, message }\<close>.\<close>

record exception =
  ex_code :: error_code
  ex_message :: string

text \<open>
  \<open>boost::system::error_code\<close>: an integer value, zero for success (\<open>!error\<close>),
  and the text \<open>error.message()\<close>.
\<close>

record sys_error =
  ec_value :: int
  ec_message :: string

definition failed :: "sys_error \<Rightarrow> bool" where
  "failed error = (ec_value error \<noteq> 0)"

definition bad_connection :: "sys_error \<Rightarrow> exception" where
  "bad_connection error = \<lparr>ex_code = BADCONNECTION, ex_message = ec_message error\<rparr>"

text \<open>\<open>tcp::endpoint\<close>: address and port.\<close>

type_synonym endpoint = "string \<times> nat"

subsection \<open>Actions of a session\<close>

text \<open>The completion handlers that the session binds to its asynchronous operations.\<close>

datatype handler =
    Handle_request_sub
  | Handle_response_sub_head
  | Handle_response_sub_body
  | Handle_sub_head
  | Handle_sub_body
  | Handle_heartbeat
  | Handle_send_hb

text \<open>
  What a member function does to the outside: it asks the connection to connect, issues
  an asynchronous write (header and body bytes), an asynchronous read into
  \<open>recv_head_\<close> or into \<open>response_\<close> (of the given size), a timer wait (in
  seconds), or it calls the user's message callback \<open>function_\<close>, the user's error
  callback \<open>error_\<close>, or the process-wide hook \<open>get_on_error()\<close>.
\<close>

datatype action =
    Connection_start
  | Async_write head_t bytes handler
  | Async_read_head handler
  | Async_read_body nat handler
  | Timer_wait nat handler
  | Call_function bytes
  | Call_error exception
  | Call_on_error

fun is_async :: "action \<Rightarrow> bool" where
  "is_async Connection_start = True"
| "is_async (Async_write h b k) = True"
| "is_async (Async_read_head k) = True"
| "is_async (Async_read_body n k) = True"
| "is_async (Timer_wait n k) = True"
| "is_async (Call_function b) = False"
| "is_async (Call_error e) = False"
| "is_async Call_on_error = False"

fun is_callback :: "action \<Rightarrow> bool" where
  "is_callback (Call_function b) = True"
| "is_callback (Call_error e) = True"
| "is_callback Call_on_error = True"
| "is_callback a = False"

subsection \<open>The session\<close>

text \<open>
  The members of \<open>sub_session\<close>. \<open>endpoint\<close> and \<open>socket_is_open\<close> stand for
  \<open>connection_.endpoint()\<close> and \<open>connection_.socket().is_open()\<close>;
  \<open>function_set\<close> and \<open>error_set\<close> say whether the \<open>std::function\<close> members
  \<open>function_\<close> and \<open>error_\<close> hold a callable.
\<close>

record sub_session =
  endpoint :: endpoint
  socket_is_open :: bool
  send_head :: head_t
  recv_head :: head_t
  topic_string :: string
  topic :: bytes
  response :: bytes
  function_set :: bool
  error_set :: bool
  running_flag :: bool

text \<open>
  The process-wide state the session reads: the name of the subscribe procedure
  (\<open>sub_topic.name()\<close>), and the two static slots \<open>get_on_error()\<close> and
  \<open>get_deserialize_exception()\<close>, each empty or set.
\<close>

record globals =
  sub_topic_name :: string
  on_error_func_set :: bool
  deserialize_exception :: "(bytes \<Rightarrow> exception) option"

text \<open>
  The constructor. \<open>running_flag_\<close> has no initialiser, so its value before
  \<open>start()\<close> is whatever the memory held: the parameter \<open>flag0\<close>.
\<close>

definition sub_session_ctor ::
  "endpoint \<Rightarrow> string \<Rightarrow> bytes \<Rightarrow> bool \<Rightarrow> bool \<Rightarrow> bool \<Rightarrow> sub_session" where
  "sub_session_ctor ep topic_str topic_bytes func err flag0 =
     \<lparr>endpoint = ep, socket_is_open = False, send_head = head_zero, recv_head = head_zero,
      topic_string = topic_str, topic = topic_bytes, response = [],
      function_set = func, error_set = err, running_flag = flag0\<rparr>"

definition start :: "sub_session \<Rightarrow> sub_session \<times> action list" where
  "start s = (s\<lparr>running_flag := True\<rparr>, [Connection_start])"

definition stop :: "sub_session \<Rightarrow> sub_session" where
  "stop s = s\<lparr>running_flag := False\<rparr>"

definition get_endpoint :: "sub_session \<Rightarrow> endpoint" where
  "get_endpoint s = endpoint s"

definition get_topic :: "sub_session \<Rightarrow> string" where
  "get_topic s = topic_string s"

text \<open>
  \<open>request_sub_message\<close> sets \<open>send_head_.len\<close> (a cast to \<open>uint32_t\<close>) and
  returns the three buffers: the header, the procedure name with its terminating NUL,
  and the packed topic.
\<close>

definition request_sub_message :: "globals \<Rightarrow> sub_session \<Rightarrow> sub_session \<times> head_t \<times> bytes" where
  "request_sub_message g s =
     (let request_rpc = sub_topic_name g;
          s' = s\<lparr>send_head := (send_head s)\<lparr>len := of_nat (length request_rpc + length (topic s) + 1)\<rparr>\<rparr>
      in (s', send_head s', request_rpc @ [CHR 0x00] @ topic s))"

definition request_sub :: "globals \<Rightarrow> sub_session \<Rightarrow> sub_session \<times> action list" where
  "request_sub g s =
     (if running_flag s
      then (case request_sub_message g s of
              (s', h, body) \<Rightarrow> (s', [Async_write h body Handle_request_sub]))
      else (s, []))"

definition setup_heartbeat_timer :: "action list" where
  "setup_heartbeat_timer = [Timer_wait 15 Handle_heartbeat]"

definition recv_sub_head :: "action list" where
  "recv_sub_head = [Async_read_head Handle_sub_head]"

definition begin_sub_procedure :: "action list" where
  "begin_sub_procedure = setup_heartbeat_timer @ recv_sub_head"

text \<open>\<open>on_error(exception const&)\<close>.\<close>

definition on_error :: "globals \<Rightarrow> sub_session \<Rightarrow> exception \<Rightarrow> action list" where
  "on_error g s e =
     (if error_set s then [Call_error e] else []) @
     (if on_error_func_set g then [Call_on_error] else [])"

text \<open>\<open>on_error()\<close>, the overload without argument.\<close>

definition on_error_0 :: "globals \<Rightarrow> sub_session \<Rightarrow> action list" where
  "on_error_0 g s =
     (case deserialize_exception g of
        None \<Rightarrow> []
      | Some deserialize \<Rightarrow> on_error g s (deserialize (response s)))"

text \<open>\<open>std::vector<char>::resize\<close>: cut, or fill with zero characters.\<close>

definition resize :: "bytes \<Rightarrow> nat \<Rightarrow> bytes" where
  "resize v n = take n v @ replicate (n - length v) (CHR 0x00)"

subsection \<open>The completion handlers\<close>

definition handle_request_sub :: "globals \<Rightarrow> sys_error \<Rightarrow> sub_session \<Rightarrow> sub_session \<times> action list" where
  "handle_request_sub g error s =
     (if \<not> (socket_is_open s \<and> running_flag s) then (s, [])
      else if \<not> failed error then (s, [Async_read_head Handle_response_sub_head])
      else (s, on_error g s (bad_connection error)))"

definition handle_response_sub_head :: "globals \<Rightarrow> sys_error \<Rightarrow> sub_session \<Rightarrow> sub_session \<times> action list" where
  "handle_response_sub_head g error s =
     (if \<not> (socket_is_open s \<and> running_flag s) then (s, [])
      else if \<not> failed error then
        (if len (recv_head s) > 0
         then (s\<lparr>response := resize (response s) (unat (len (recv_head s)))\<rparr>,
               [Async_read_body (unat (len (recv_head s))) Handle_response_sub_body])
         else (s, []))
      else (s, on_error g s (bad_connection error)))"

definition handle_response_sub_body :: "globals \<Rightarrow> sys_error \<Rightarrow> sub_session \<Rightarrow> sub_session \<times> action list" where
  "handle_response_sub_body g error s =
     (if \<not> (socket_is_open s \<and> running_flag s) then (s, [])
      else if \<not> failed error then
        (if result_code_OK = code (recv_head s)
         then (s, begin_sub_procedure)
         else (s, on_error_0 g s))
      else (s, on_error g s (bad_connection error)))"

definition handle_sub_head :: "globals \<Rightarrow> sys_error \<Rightarrow> sub_session \<Rightarrow> sub_session \<times> action list" where
  "handle_sub_head g error s =
     (if \<not> (socket_is_open s \<and> running_flag s) then (s, [])
      else if \<not> failed error then
        (if len (recv_head s) > 0
         then (s\<lparr>response := resize (response s) (unat (len (recv_head s)))\<rparr>,
               [Async_read_body (unat (len (recv_head s))) Handle_sub_body])
         else (s, recv_sub_head))
      else (s, on_error g s (bad_connection error)))"

definition handle_sub_body :: "globals \<Rightarrow> sys_error \<Rightarrow> sub_session \<Rightarrow> sub_session \<times> action list" where
  "handle_sub_body g error s =
     (if \<not> (socket_is_open s \<and> running_flag s) then (s, [])
      else if \<not> failed error then
        (s, (if function_set s then [Call_function (response s)] else []) @ recv_sub_head)
      else (s, on_error g s (bad_connection error)))"

definition handle_heartbeat :: "globals \<Rightarrow> sys_error \<Rightarrow> sub_session \<Rightarrow> sub_session \<times> action list" where
  "handle_heartbeat g error s =
     (if \<not> (socket_is_open s \<and> running_flag s) then (s, [])
      else if \<not> failed error then
        (s\<lparr>send_head := head_zero\<rparr>,
         [Async_write head_zero [] Handle_send_hb] @ setup_heartbeat_timer)
      else (s, []))"

definition handle_send_hb :: "globals \<Rightarrow> sys_error \<Rightarrow> sub_session \<Rightarrow> sub_session \<times> action list" where
  "handle_send_hb g error s =
     (if \<not> (socket_is_open s \<and> running_flag s) then (s, [])
      else if failed error then (s, on_error g s (bad_connection error))
      else (s, []))"

text \<open>The call that \<open>boost::bind\<close> makes when the operation bound to a handler completes.\<close>

fun invoke :: "globals \<Rightarrow> handler \<Rightarrow> sys_error \<Rightarrow> sub_session \<Rightarrow> sub_session \<times> action list" where
  "invoke g Handle_request_sub error s = handle_request_sub g error s"
| "invoke g Handle_response_sub_head error s = handle_response_sub_head g error s"
| "invoke g Handle_response_sub_body error s = handle_response_sub_body g error s"
| "invoke g Handle_sub_head error s = handle_sub_head g error s"
| "invoke g Handle_sub_body error s = handle_sub_body g error s"
| "invoke g Handle_heartbeat error s = handle_heartbeat g error s"
| "invoke g Handle_send_hb error s = handle_send_hb g error s"

subsection \<open>The registry of \<open>sub_manager\<close>\<close>

text \<open>
  \<open>std::map\<close> as an association list read through \<open>map_of\<close>; a
  \<open>sub_session_ptr\<close> is the address of the session it shares.
\<close>

type_synonym sub_session_ptr = nat
type_synonym topics_map_t = "(string \<times> sub_session_ptr) list"
type_synonym endpoint_map_t = "(endpoint \<times> topics_map_t) list"

text \<open>\<open>std::map::emplace\<close> inserts only when the key is absent.\<close>

definition emplace :: "'k \<Rightarrow> 'v \<Rightarrow> ('k \<times> 'v) list \<Rightarrow> ('k \<times> 'v) list" where
  "emplace k v m = (case map_of m k of None \<Rightarrow> m @ [(k, v)] | Some _ \<Rightarrow> m)"

text \<open>The session registered for an endpoint and a topic, if any.\<close>

definition registered :: "endpoint_map_t \<Rightarrow> endpoint \<Rightarrow> string \<Rightarrow> sub_session_ptr option" where
  "registered topics ep t =
     (case map_of topics ep of None \<Rightarrow> None | Some topics_in_endpoint \<Rightarrow> map_of topics_in_endpoint t)"

definition remove :: "sub_session \<Rightarrow> endpoint_map_t \<Rightarrow> endpoint_map_t" where
  "remove session topics =
     (case map_of topics (get_endpoint session) of
        None \<Rightarrow> topics
      | Some topics_in_endpoint \<Rightarrow>
          (let topics_in_endpoint' =
                 (case map_of topics_in_endpoint (get_topic session) of
                    None \<Rightarrow> topics_in_endpoint
                  | Some _ \<Rightarrow> AList.delete (get_topic session) topics_in_endpoint)
           in if topics_in_endpoint' = []
              then AList.delete (get_endpoint session) topics
              else AList.update (get_endpoint session) topics_in_endpoint' topics))"

text \<open>
  \<open>sub_impl\<close> throws (\<open>Inl\<close>) or returns the registry with the pointer inserted,
  the session after \<open>start()\<close> and the actions of \<open>start()\<close>.
\<close>

definition sub_impl ::
  "endpoint \<Rightarrow> string \<Rightarrow> sub_session_ptr \<times> sub_session \<Rightarrow> endpoint_map_t \<Rightarrow>
   exception + (endpoint_map_t \<times> sub_session \<times> action list)" where
  "sub_impl ep t session topics =
     (case map_of topics ep of
        None \<Rightarrow>
          (let topic_map = emplace t (fst session) []
           in Inr (emplace ep topic_map topics, start (snd session)))
      | Some topics_in_endpoint \<Rightarrow>
          (case map_of topics_in_endpoint t of
             Some _ \<Rightarrow> Inl \<lparr>ex_code = UNKNOWN, ex_message = ''Sub topic already existed!''\<rparr>
           | None \<Rightarrow>
               Inr (AList.update ep (emplace t (fst session) topics_in_endpoint) topics,
                    start (snd session))))"

text \<open>
  The topic description handed to \<open>sub\<close>: its \<open>name()\<close> and the bytes that
  \<open>pack_topic\<close> returns for the manager's codec.
\<close>

record protocol =
  name :: string
  pack_topic :: bytes

text \<open>
  \<open>make_sub_session\<close>, both overloads: \<open>make_proc_func\<close> always yields a callable,
  the error callback is absent in the first overload. \<open>p\<close> is the address that
  \<open>std::make_shared\<close> returns.
\<close>

definition make_sub_session ::
  "sub_session_ptr \<Rightarrow> bool \<Rightarrow> endpoint \<Rightarrow> protocol \<Rightarrow> sub_session_ptr \<times> sub_session" where
  "make_sub_session p flag0 ep proto =
     (p, sub_session_ctor ep (name proto) (pack_topic proto) True False flag0)"

definition make_sub_session_e ::
  "sub_session_ptr \<Rightarrow> bool \<Rightarrow> endpoint \<Rightarrow> protocol \<Rightarrow> bool \<Rightarrow> sub_session_ptr \<times> sub_session" where
  "make_sub_session_e p flag0 ep proto efunc =
     (p, sub_session_ctor ep (name proto) (pack_topic proto) True efunc flag0)"

definition sub ::
  "sub_session_ptr \<Rightarrow> bool \<Rightarrow> endpoint \<Rightarrow> protocol \<Rightarrow> endpoint_map_t \<Rightarrow>
   exception + (endpoint_map_t \<times> sub_session \<times> action list)" where
  "sub p flag0 ep proto topics =
     (let session = make_sub_session p flag0 ep proto
      in sub_impl ep (name proto) session topics)"

definition sub_e ::
  "sub_session_ptr \<Rightarrow> bool \<Rightarrow> endpoint \<Rightarrow> protocol \<Rightarrow> bool \<Rightarrow> endpoint_map_t \<Rightarrow>
   exception + (endpoint_map_t \<times> sub_session \<times> action list)" where
  "sub_e p flag0 ep proto efunc topics =
     (let session = make_sub_session_e p flag0 ep proto efunc
      in sub_impl ep (name proto) session topics)"

text \<open>
  The constructor of \<open>sub_manager\<close> fills the two static slots: the failure hook is
  \<open>remove(session)\<close>, the deserialization hook is the codec's \<open>unpack<exception>\<close>.
\<close>

definition sub_manager_ctor :: "(bytes \<Rightarrow> exception) \<Rightarrow> globals \<Rightarrow> globals" where
  "sub_manager_ctor unpack g =
     g\<lparr>on_error_func_set := True, deserialize_exception := Some unpack\<rparr>"

subsection \<open>Completions\<close>

text \<open>
  A session with its outstanding asynchronous operations, everything it has done so
  far, and the registry of the manager whose hooks are installed. The io\_service
  completes an outstanding operation: the connection reports success or failure, a
  write ends, a read has filled \<open>recv_head_\<close> or \<open>response_\<close>, the timer wait
  ends. Each completion carries the \<open>boost::system::error_code\<close> and what was read.
\<close>

record world =
  sess :: sub_session
  pending :: "action list"
  trace :: "action list"
  topics :: endpoint_map_t

datatype completion =
    Connected
  | Connect_failed
  | Write_done handler sys_error
  | Head_read handler sys_error head_t
  | Body_read handler sys_error bytes
  | Timer_done handler sys_error

text \<open>
  Which outstanding operation a completion ends. A read of \<open>n\<close> bytes that succeeds
  has read \<open>n\<close> bytes, one that fails at most \<open>n\<close>.
\<close>

fun answers :: "completion \<Rightarrow> action \<Rightarrow> bool" where
  "answers Connected Connection_start = True"
| "answers Connect_failed Connection_start = True"
| "answers (Write_done k error) (Async_write h b k') = (k = k')"
| "answers (Head_read k error h) (Async_read_head k') = (k = k')"
| "answers (Body_read k error bs) (Async_read_body n k') =
     (k = k' \<and> (if failed error then length bs \<le> n else length bs = n))"
| "answers (Timer_done k error) (Timer_wait n k') = (k = k')"
| "answers c a = False"

fun take_out :: "('a \<Rightarrow> bool) \<Rightarrow> 'a list \<Rightarrow> 'a list option" where
  "take_out P [] = None"
| "take_out P (x # xs) =
     (if P x then Some xs else (case take_out P xs of None \<Rightarrow> None | Some ys \<Rightarrow> Some (x # ys)))"

text \<open>
  What the operation itself has written before the handler runs: a connected socket is
  open, a read has overwritten its buffer.
\<close>

fun deposit :: "completion \<Rightarrow> sub_session \<Rightarrow> sub_session" where
  "deposit Connected s = s\<lparr>socket_is_open := True\<rparr>"
| "deposit (Head_read k error h) s = s\<lparr>recv_head := h\<rparr>"
| "deposit (Body_read k error bs) s = s\<lparr>response := bs @ drop (length bs) (response s)\<rparr>"
| "deposit c s = s"

text \<open>
  The code that runs on a completion: the two continuations that \<open>start()\<close> gives to
  the connection (\<open>request_sub()\<close> and \<open>stop()\<close>), or the bound handler.
\<close>

fun react :: "globals \<Rightarrow> completion \<Rightarrow> sub_session \<Rightarrow> sub_session \<times> action list" where
  "react g Connected s = request_sub g s"
| "react g Connect_failed s = (stop s, [])"
| "react g (Write_done k error) s = invoke g k error s"
| "react g (Head_read k error h) s = invoke g k error s"
| "react g (Body_read k error bs) s = invoke g k error s"
| "react g (Timer_done k error) s = invoke g k error s"

text \<open>The installed failure hook runs \<open>remove\<close> on the manager's registry.\<close>

fun fire_hooks :: "sub_session \<Rightarrow> action list \<Rightarrow> endpoint_map_t \<Rightarrow> endpoint_map_t" where
  "fire_hooks s [] m = m"
| "fire_hooks s (a # acts) m = fire_hooks s acts (if a = Call_on_error then remove s m else m)"

definition step :: "globals \<Rightarrow> completion \<Rightarrow> world \<Rightarrow> world option" where
  "step g c w =
     (case take_out (answers c) (pending w) of
        None \<Rightarrow> None
      | Some rest \<Rightarrow>
          (case react g c (deposit c (sess w)) of
             (s', acts) \<Rightarrow>
               Some \<lparr>sess = s', pending = rest @ filter is_async acts,
                     trace = trace w @ acts, topics = fire_hooks s' acts (topics w)\<rparr>))"

fun run :: "globals \<Rightarrow> completion list \<Rightarrow> world \<Rightarrow> world option" where
  "run g [] w = Some w"
| "run g (c # cs) w = (case step g c w of None \<Rightarrow> None | Some w' \<Rightarrow> run g cs w')"

text \<open>The reads among the outstanding operations: the receive chain.\<close>

fun is_read :: "action \<Rightarrow> bool" where
  "is_read (Async_read_head k) = True"
| "is_read (Async_read_body n k) = True"
| "is_read a = False"

text \<open>
  A call of \<open>sub\<close> seen from the caller: the member \<open>topics_\<close> afterwards (a
  throw leaves it as it was), and the world of the session that was started.
\<close>

definition topics_after ::
  "exception + (endpoint_map_t \<times> sub_session \<times> action list) \<Rightarrow> endpoint_map_t \<Rightarrow> endpoint_map_t" where
  "topics_after r m = (case r of Inl e \<Rightarrow> m | Inr (m', s, acts) \<Rightarrow> m')"

definition subscribed_world ::
  "exception + (endpoint_map_t \<times> sub_session \<times> action list) \<Rightarrow> world option" where
  "subscribed_world r =
     (case r of
        Inl e \<Rightarrow> None
      | Inr (m, s, acts) \<Rightarrow>
          Some \<lparr>sess = s, pending = filter is_async acts, trace = acts, topics = m\<rparr>)"

text \<open>Every bucket of the registry holds at least one topic.\<close>

definition no_empty_bucket :: "endpoint_map_t \<Rightarrow> bool" where
  "no_empty_bucket m = list_all (\<lambda>b. snd b \<noteq> []) m"

text \<open>
  The phases of a session are not stored; they show in what is outstanding. A session
  in its handshake waits for the header of the reply, an active one for the header of
  the next frame; both are open and running, with one read outstanding.
\<close>

definition active :: "world \<Rightarrow> bool" where
  "active w =
     (socket_is_open (sess w) \<and> running_flag (sess w) \<and>
      filter is_read (pending w) = [Async_read_head Handle_sub_head])"

definition handshaking :: "world \<Rightarrow> bool" where
  "handshaking w =
     (socket_is_open (sess w) \<and> running_flag (sess w) \<and>
      filter is_read (pending w) = [Async_read_head Handle_response_sub_head])"

subsection \<open>Sample values\<close>

text \<open>
  A manager whose codec unpacks an exception as a server rejection carrying the bytes
  as its message, a publisher's endpoint, two topics, and three completion codes.
\<close>

definition example_unpack :: "bytes \<Rightarrow> exception" where
  "example_unpack b = \<lparr>ex_code = SERVER_REJECTED, ex_message = b\<rparr>"

definition example_globals :: globals where
  "example_globals =
     sub_manager_ctor example_unpack
       \<lparr>sub_topic_name = ''sub_topic'', on_error_func_set = False, deserialize_exception = None\<rparr>"

definition example_endpoint :: endpoint where
  "example_endpoint = (''127.0.0.1'', 9000)"

definition news :: protocol where
  "news = \<lparr>name = ''news'', pack_topic = ''n''\<rparr>"

definition weather :: protocol where
  "weather = \<lparr>name = ''weather'', pack_topic = ''w''\<rparr>"

definition success :: sys_error where
  "success = \<lparr>ec_value = 0, ec_message = ''Success''\<rparr>"

definition eof :: sys_error where
  "eof = \<lparr>ec_value = 2, ec_message = ''End of file''\<rparr>"

definition operation_aborted :: sys_error where
  "operation_aborted = \<lparr>ec_value = 125, ec_message = ''Operation canceled''\<rparr>"

text \<open>
  A session subscribed to \<open>news\<close> with an error callback, connected and through its
  handshake: the heartbeat timer and the header read are outstanding.
\<close>

definition active_session :: sub_session where
  "active_session =
     (sub_session_ctor example_endpoint ''news'' ''n'' True True False)
       \<lparr>socket_is_open := True, running_flag := True\<rparr>"

definition active_world :: world where
  "active_world =
     \<lparr>sess = active_session,
      pending = [Timer_wait 15 Handle_heartbeat, Async_read_head Handle_sub_head],
      trace = [],
      topics = [(example_endpoint, [(''news'', 1)])]\<rparr>"

text \<open>The same session waiting for the header of the handshake reply.\<close>

definition handshaking_world :: world where
  "handshaking_world =
     \<lparr>sess = active_session,
      pending = [Async_read_head Handle_response_sub_head],
      trace = [],
      topics = [(example_endpoint, [(''news'', 1)])]\<rparr>"


section \<open>Properties\<close>

lemma invoke_not_alive:
  "\<not> (socket_is_open s \<and> running_flag s) \<Longrightarrow> invoke g h error s = (s, [])"
  by (cases h)
     (simp_all add: handle_request_sub_def handle_response_sub_head_def
        handle_response_sub_body_def handle_sub_head_def handle_sub_body_def
        handle_heartbeat_def handle_send_hb_def)

subsection \<open>A stopped session\<close>

lemma react_not_running: "\<not> running_flag s \<Longrightarrow> react g c s = (s, [])"
  by (cases c) (simp_all add: invoke_not_alive request_sub_def stop_def)

lemma deposit_running_flag: "running_flag (deposit c s) = running_flag s"
  by (cases c) simp_all

lemma step_not_running:
  assumes "\<not> running_flag (sess w)" and "step g c w = Some w'"
  shows "trace w' = trace w \<and> topics w' = topics w \<and> \<not> running_flag (sess w')"
proof -
  have "react g c (deposit c (sess w)) = (deposit c (sess w), [])"
    using assms(1) by (simp add: react_not_running deposit_running_flag)
  with assms show ?thesis
    by (auto simp: step_def deposit_running_flag split: option.splits)
qed

lemma run_not_running:
  "\<not> running_flag (sess w) \<Longrightarrow> run g cs w = Some w' \<Longrightarrow>
     trace w' = trace w \<and> topics w' = topics w \<and> \<not> running_flag (sess w')"
proof (induction cs arbitrary: w)
  case Nil
  then show ?case by simp
next
  case (Cons c cs)
  then obtain w1 where s: "step g c w = Some w1" and r: "run g cs w1 = Some w'"
    by (auto split: option.splits)
  from step_not_running[OF Cons.prems(1) s] Cons.IH[OF _ r] show ?case by simp
qed

text \<open>
  C1. After \<open>stop()\<close> the running flag is false. Every completion handler that runs
  on a session whose flag is false returns at once: the session is unchanged and no
  action is taken, so neither \<open>function_\<close> nor \<open>error_\<close> nor the failure hook is
  called. Hence, whatever operations were outstanding when \<open>stop()\<close> returned and in
  whatever order they complete, the session does nothing more: its trace and the
  registry stay as they were and the flag stays false.
\<close>

theorem stop_silences_session:
  "\<not> running_flag (stop s) \<and>
   (\<forall>h error. invoke g h error (stop s) = (stop s, [])) \<and>
   (\<forall>s'. \<not> running_flag s' \<longrightarrow> (\<forall>h error. invoke g h error s' = (s', []))) \<and>
   (\<forall>cs w'. run g cs (w\<lparr>sess := stop (sess w)\<rparr>) = Some w' \<longrightarrow>
      trace w' = trace w \<and> topics w' = topics w \<and> \<not> running_flag (sess w'))"
proof -
  have a: "\<not> running_flag (stop s)" by (simp add: stop_def)
  have b: "\<forall>s'. \<not> running_flag s' \<longrightarrow> (\<forall>h error. invoke g h error s' = (s', []))"
    by (simp add: invoke_not_alive)
  have c: "\<forall>cs w'. run g cs (w\<lparr>sess := stop (sess w)\<rparr>) = Some w' \<longrightarrow>
      trace w' = trace w \<and> topics w' = topics w \<and> \<not> running_flag (sess w')"
  proof (intro allI impI)
    fix cs w'
    assume r: "run g cs (w\<lparr>sess := stop (sess w)\<rparr>) = Some w'"
    have "\<not> running_flag (sess (w\<lparr>sess := stop (sess w)\<rparr>))" by (simp add: stop_def)
    from run_not_running[OF this r] show
      "trace w' = trace w \<and> topics w' = topics w \<and> \<not> running_flag (sess w')" by simp
  qed
  from a b c show ?thesis by blast
qed

text \<open>
  The active sample session is stopped while its header read and its timer wait are
  outstanding; the read then fails and the timer fires. Nothing is called.
\<close>

theorem stop_silences_session_witness:
  "run example_globals
     [Head_read Handle_sub_head eof head_zero, Timer_done Handle_heartbeat success]
     (active_world\<lparr>sess := stop (sess active_world)\<rparr>)
   = Some (active_world\<lparr>sess := stop active_session, pending := []\<rparr>) \<and>
   trace (active_world\<lparr>sess := stop active_session, pending := []\<rparr>) = trace active_world \<and>
   invoke example_globals Handle_sub_body success (stop active_session) = (stop active_session, [])"
proof -
  have r: "run example_globals
     [Head_read Handle_sub_head eof head_zero, Timer_done Handle_heartbeat success]
     (active_world\<lparr>sess := stop (sess active_world)\<rparr>)
   = Some (active_world\<lparr>sess := stop active_session, pending := []\<rparr>)"
    by (simp add: step_def active_world_def active_session_def sub_session_ctor_def stop_def
        head_zero_def handle_sub_head_def handle_heartbeat_def)
  from stop_silences_session[of active_session example_globals active_world]
  have i: "invoke example_globals Handle_sub_body success (stop active_session)
           = (stop active_session, [])"
    by blast
  have t: "trace (active_world\<lparr>sess := stop active_session, pending := []\<rparr>)
           = trace active_world"
    by simp
  from r i t show ?thesis by blast
qed

subsection \<open>The registry\<close>

lemma erase_topic:
  "(case map_of b t of None \<Rightarrow> b | Some x \<Rightarrow> AList.delete t b) = AList.delete t b"
proof (cases "map_of b t")
  case None
  then have "t \<notin> fst ` set b" by (simp add: map_of_eq_None_iff)
  with None show ?thesis by simp
next
  case (Some x)
  then show ?thesis by simp
qed

lemma remove_bucket:
  "map_of m (get_endpoint S) = Some b \<Longrightarrow>
   remove S m =
     (if AList.delete (get_topic S) b = [] then AList.delete (get_endpoint S) m
      else AList.update (get_endpoint S) (AList.delete (get_topic S) b) m)"
  by (simp add: remove_def erase_topic)

lemma remove_no_bucket: "map_of m (get_endpoint S) = None \<Longrightarrow> remove S m = m"
  by (simp add: remove_def)

lemma map_of_remove:
  "map_of (remove S m) ep =
     (if ep = get_endpoint S
      then (case map_of m ep of
              None \<Rightarrow> None
            | Some b \<Rightarrow> (if AList.delete (get_topic S) b = [] then None
                         else Some (AList.delete (get_topic S) b)))
      else map_of m ep)"
proof (cases "map_of m (get_endpoint S)")
  case None
  then show ?thesis by (simp add: remove_no_bucket)
next
  case (Some b)
  then show ?thesis
    by (simp add: remove_bucket AList.delete_conv' AList.update_conv')
qed

lemma delete_Nil_lookup: "AList.delete t b = [] \<Longrightarrow> t' \<noteq> t \<Longrightarrow> map_of b t' = None"
proof -
  assume a: "AList.delete t b = []" and n: "t' \<noteq> t"
  from n have "map_of (AList.delete t b) t' = map_of b t'" by simp
  with a show ?thesis by simp
qed

lemma registered_remove:
  "registered (remove S m) ep t =
     (if ep = get_endpoint S \<and> t = get_topic S then None else registered m ep t)"
  by (auto simp: registered_def map_of_remove AList.delete_conv' delete_Nil_lookup
      split: option.splits)

lemma remove_idem: "remove S (remove S m) = remove S m"
proof (cases "map_of m (get_endpoint S)")
  case None
  then show ?thesis by (simp add: remove_no_bucket)
next
  case (Some b)
  show ?thesis
  proof (cases "AList.delete (get_topic S) b = []")
    case True
    with Some have r: "remove S m = AList.delete (get_endpoint S) m"
      by (simp add: remove_bucket)
    have "map_of (AList.delete (get_endpoint S) m) (get_endpoint S) = None"
      by (simp add: AList.delete_conv')
    then show ?thesis unfolding r by (rule remove_no_bucket)
  next
    case False
    let ?b = "AList.delete (get_topic S) b"
    from False Some have r: "remove S m = AList.update (get_endpoint S) ?b m"
      by (simp add: remove_bucket)
    have l: "map_of (AList.update (get_endpoint S) ?b m) (get_endpoint S) = Some ?b"
      by (simp add: AList.update_conv')
    show ?thesis unfolding r
      using False by (simp add: remove_bucket[OF l] AList.delete_idem)
  qed
qed

lemma remove_absent:
  assumes "no_empty_bucket m" and "registered m (get_endpoint S) (get_topic S) = None"
  shows "remove S m = m"
proof (cases "map_of m (get_endpoint S)")
  case None
  then show ?thesis by (simp add: remove_no_bucket)
next
  case (Some b)
  with assms(2) have "map_of b (get_topic S) = None" by (simp add: registered_def)
  then have "get_topic S \<notin> fst ` set b" by (simp add: map_of_eq_None_iff)
  then have d: "AList.delete (get_topic S) b = b" by simp
  from Some have "(get_endpoint S, b) \<in> set m" by (rule map_of_SomeD)
  with assms(1) have "b \<noteq> []" by (auto simp: no_empty_bucket_def list_all_iff)
  with Some d show ?thesis by (simp add: remove_bucket AList.update_triv)
qed

text \<open>The registry starts empty; \<open>sub_impl\<close> and \<open>remove\<close> never leave an empty bucket.\<close>

lemma set_update_subset: "set (AList.update k v m) \<subseteq> insert (k, v) (set m)"
  by (induction m) auto

lemma set_delete_subset: "set (AList.delete k m) \<subseteq> set m"
  by (auto simp: AList.delete_eq)

lemma set_emplace_subset: "set (emplace k v m) \<subseteq> insert (k, v) (set m)"
  by (auto simp: emplace_def split: option.splits)

lemma emplace_not_Nil: "emplace k v m \<noteq> []"
  by (cases m) (auto simp: emplace_def split: option.splits)

lemma no_empty_bucket_remove: "no_empty_bucket m \<Longrightarrow> no_empty_bucket (remove S m)"
proof (cases "map_of m (get_endpoint S)")
  case None
  assume "no_empty_bucket m"
  with None show ?thesis by (simp add: remove_no_bucket)
next
  case (Some b)
  assume n: "no_empty_bucket m"
  show ?thesis
  proof (cases "AList.delete (get_topic S) b = []")
    case True
    with Some have "remove S m = AList.delete (get_endpoint S) m" by (simp add: remove_bucket)
    with n set_delete_subset[of "get_endpoint S" m] show ?thesis
      by (auto simp: no_empty_bucket_def list_all_iff)
  next
    case False
    with Some have "remove S m =
      AList.update (get_endpoint S) (AList.delete (get_topic S) b) m"
      by (simp add: remove_bucket)
    with n False set_update_subset[of "get_endpoint S" "AList.delete (get_topic S) b" m]
    show ?thesis
      by (auto simp: no_empty_bucket_def list_all_iff)
  qed
qed

lemma no_empty_bucket_sub_impl:
  assumes "no_empty_bucket m" "sub_impl ep t session m = Inr (m', s, acts)"
  shows "no_empty_bucket m'"
proof (cases "map_of m ep")
  case None
  with assms(2) have "m' = emplace ep (emplace t (fst session) []) m"
    by (simp add: sub_impl_def)
  with assms(1) set_emplace_subset[of ep "emplace t (fst session) []" m]
    emplace_not_Nil[of t "fst session" "[]"]
  show ?thesis by (auto simp: no_empty_bucket_def list_all_iff)
next
  case (Some b)
  with assms(2) have "m' = AList.update ep (emplace t (fst session) b) m"
    by (auto simp: sub_impl_def split: option.splits)
  with assms(1) set_update_subset[of ep "emplace t (fst session) b" m]
    emplace_not_Nil[of t "fst session" b]
  show ?thesis by (auto simp: no_empty_bucket_def list_all_iff)
qed

text \<open>
  C8. \<open>remove(S)\<close> erases the entry of \<open>S\<close>'s endpoint and topic and no other: every
  other topic under the same endpoint and every other endpoint is found as before.
  Calling it again changes nothing, and on a registry without empty buckets it changes
  nothing when the entry is absent. The bucket of \<open>S\<close>'s endpoint is gone afterwards
  exactly when it held no topic but \<open>S\<close>'s; otherwise it holds its other topics.
\<close>

theorem remove_erases_one_entry:
  "registered (remove S m) ep t =
     (if ep = get_endpoint S \<and> t = get_topic S then None else registered m ep t) \<and>
   remove S (remove S m) = remove S m \<and>
   (no_empty_bucket m \<and> registered m (get_endpoint S) (get_topic S) = None \<longrightarrow> remove S m = m) \<and>
   map_of (remove S m) ep =
     (if ep = get_endpoint S
      then (case map_of m ep of
              None \<Rightarrow> None
            | Some b \<Rightarrow> (if AList.delete (get_topic S) b = [] then None
                         else Some (AList.delete (get_topic S) b)))
      else map_of m ep)"
  using registered_remove[of S m ep t] remove_idem[of S m] remove_absent[of m S]
    map_of_remove[of S m ep]
  by blast

text \<open>
  One endpoint with the topics \<open>news\<close> and \<open>weather\<close>: removing the \<open>news\<close>
  session leaves \<open>weather\<close> registered, removing it again changes nothing, and
  removing the \<open>weather\<close> session as well erases the endpoint.
\<close>

theorem remove_erases_one_entry_witness:
  "registered
     (remove (snd (make_sub_session 1 False example_endpoint news))
        [(example_endpoint, [(''news'', 1), (''weather'', 2)])])
     example_endpoint ''weather'' = Some 2 \<and>
   remove (snd (make_sub_session 1 False example_endpoint news))
     [(example_endpoint, [(''news'', 1), (''weather'', 2)])]
   = [(example_endpoint, [(''weather'', 2)])] \<and>
   remove (snd (make_sub_session 1 False example_endpoint news))
     [(example_endpoint, [(''weather'', 2)])]
   = [(example_endpoint, [(''weather'', 2)])] \<and>
   remove (snd (make_sub_session 2 False example_endpoint weather))
     [(example_endpoint, [(''weather'', 2)])]
   = []"
proof -
  let ?S = "snd (make_sub_session 1 False example_endpoint news)"
  let ?m = "[(example_endpoint, [(''news'', 1), (''weather'', 2)])]"
  have e: "remove ?S ?m = [(example_endpoint, [(''weather'', 2)])]"
    by (simp add: remove_def make_sub_session_def sub_session_ctor_def get_endpoint_def
        get_topic_def news_def example_endpoint_def)
  have w: "remove (snd (make_sub_session 2 False example_endpoint weather))
     [(example_endpoint, [(''weather'', 2)])] = []"
    by (simp add: remove_def make_sub_session_def sub_session_ctor_def get_endpoint_def
        get_topic_def weather_def example_endpoint_def)
  have g: "get_endpoint ?S = example_endpoint" "get_topic ?S = ''news''"
    by (simp_all add: make_sub_session_def sub_session_ctor_def get_endpoint_def
        get_topic_def news_def)
  from remove_erases_one_entry[of ?S ?m example_endpoint "''weather''"] e w g
  show ?thesis by (simp add: registered_def)
qed

subsection \<open>Outstanding operations\<close>

lemma take_out_keeps:
  "take_out P xs = Some ys \<Longrightarrow> x \<in> set xs \<Longrightarrow> \<not> P x \<Longrightarrow> x \<in> set ys"
  by (induction xs arbitrary: ys) (auto split: if_splits option.splits)

lemma take_out_filter:
  "take_out P xs = Some ys \<Longrightarrow> (\<And>a. P a \<Longrightarrow> \<not> Q a) \<Longrightarrow> filter Q ys = filter Q xs"
  by (induction xs arbitrary: ys) (auto split: if_splits option.splits)

lemma take_out_only:
  "filter Q xs = [x] \<Longrightarrow> P x \<Longrightarrow> (\<And>a. P a \<Longrightarrow> Q a) \<Longrightarrow>
   \<exists>ys. take_out P xs = Some ys \<and> filter Q ys = [] \<and>
        filter (\<lambda>a. \<not> Q a) ys = filter (\<lambda>a. \<not> Q a) xs"
proof (induction xs)
  case Nil
  then show ?case by simp
next
  case (Cons a xs)
  show ?case
  proof (cases "Q a")
    case True
    with Cons.prems(1) have ax: "a = x" and rest: "filter Q xs = []" by simp_all
    from ax Cons.prems(2) True rest show ?thesis by simp
  next
    case False
    with Cons.prems(1) have "filter Q xs = [x]" by simp
    from Cons.IH[OF this Cons.prems(2) Cons.prems(3)] obtain ys where
      "take_out P xs = Some ys" "filter Q ys = []"
      "filter (\<lambda>a. \<not> Q a) ys = filter (\<lambda>a. \<not> Q a) xs" by blast
    moreover from False Cons.prems(3) have "\<not> P a" by blast
    ultimately show ?thesis using False by simp
  qed
qed

subsection \<open>The heartbeat chain\<close>

lemma step_heartbeat_ok:
  assumes "\<not> failed error" "socket_is_open (sess w)" "running_flag (sess w)"
    and "step g (Timer_done Handle_heartbeat error) w = Some w1"
  shows "sess w1 = (sess w)\<lparr>send_head := \<lparr>len = 0, code = 0\<rparr>\<rparr> \<and>
     trace w1 = trace w @ [Async_write \<lparr>len = 0, code = 0\<rparr> [] Handle_send_hb,
                           Timer_wait 15 Handle_heartbeat] \<and>
     Async_write \<lparr>len = 0, code = 0\<rparr> [] Handle_send_hb \<in> set (pending w1) \<and>
     Timer_wait 15 Handle_heartbeat \<in> set (pending w1) \<and> topics w1 = topics w"
  using assms
  by (auto simp: step_def handle_heartbeat_def setup_heartbeat_timer_def head_zero_def
      split: option.splits)

lemma step_send_hb_keeps_timer:
  assumes "step g (Write_done Handle_send_hb error) w1 = Some w2"
    and "Timer_wait n Handle_heartbeat \<in> set (pending w1)"
  shows "Timer_wait n Handle_heartbeat \<in> set (pending w2)"
proof -
  from assms(1) obtain rest where
    t: "take_out (answers (Write_done Handle_send_hb error)) (pending w1) = Some rest"
    and "set rest \<subseteq> set (pending w2)"
    by (auto simp: step_def split: option.splits prod.splits)
  moreover from take_out_keeps[OF t assms(2)] have "Timer_wait n Handle_heartbeat \<in> set rest"
    by simp
  ultimately show ?thesis by blast
qed

lemma step_timer_failed:
  assumes "failed error" "step g (Timer_done Handle_heartbeat error) w = Some w'"
  shows "sess w' = sess w \<and> trace w' = trace w \<and> topics w' = topics w \<and>
     take_out (answers (Timer_done Handle_heartbeat error)) (pending w) = Some (pending w') \<and>
     filter is_read (pending w') = filter is_read (pending w)"
proof -
  from assms obtain rest where
    t: "take_out (answers (Timer_done Handle_heartbeat error)) (pending w) = Some rest"
    and w': "w' = \<lparr>sess = sess w, pending = rest, trace = trace w, topics = topics w\<rparr>"
    by (auto simp: step_def handle_heartbeat_def split: option.splits if_splits)
  have "\<not> is_read a" if "answers (Timer_done Handle_heartbeat error) a" for a
    using that by (cases a) simp_all
  from take_out_filter[OF t this] w' t show ?thesis by simp
qed

text \<open>
  C9. When the heartbeat timer wait completes without error: a session that is not
  running, or whose socket is closed, writes nothing and does not re-arm the timer;
  otherwise it writes a header with \<open>len = 0\<close> and no body, bound to
  \<open>handle_send_hb\<close>, and re-arms the 15 second timer in the same call. The timer was
  re-armed before the write completed, and the completion of the write, with whatever
  error code, leaves that timer wait outstanding.
\<close>

theorem heartbeat_expiry:
  assumes "\<not> failed error"
  shows "handle_heartbeat g error s =
     (if socket_is_open s \<and> running_flag s
      then (s\<lparr>send_head := \<lparr>len = 0, code = 0\<rparr>\<rparr>,
            [Async_write \<lparr>len = 0, code = 0\<rparr> [] Handle_send_hb, Timer_wait 15 Handle_heartbeat])
      else (s, [])) \<and>
   (\<forall>w1 w2 error'.
      socket_is_open (sess w) \<and> running_flag (sess w) \<and>
      step g (Timer_done Handle_heartbeat error) w = Some w1 \<and>
      step g (Write_done Handle_send_hb error') w1 = Some w2 \<longrightarrow>
      Timer_wait 15 Handle_heartbeat \<in> set (pending w2))"
proof -
  have a: "handle_heartbeat g error s =
     (if socket_is_open s \<and> running_flag s
      then (s\<lparr>send_head := \<lparr>len = 0, code = 0\<rparr>\<rparr>,
            [Async_write \<lparr>len = 0, code = 0\<rparr> [] Handle_send_hb, Timer_wait 15 Handle_heartbeat])
      else (s, []))"
    using assms by (simp add: handle_heartbeat_def setup_heartbeat_timer_def head_zero_def)
  have b: "Timer_wait 15 Handle_heartbeat \<in> set (pending w2)"
    if "socket_is_open (sess w)" "running_flag (sess w)"
      "step g (Timer_done Handle_heartbeat error) w = Some w1"
      "step g (Write_done Handle_send_hb error') w1 = Some w2" for w1 w2 error'
    using step_heartbeat_ok[OF assms that(1,2,3)] step_send_hb_keeps_timer[OF that(4)] by blast
  from a b show ?thesis by blast
qed

text \<open>
  The timer of the active sample session fires: the ping is written and the timer
  re-armed; a stopped session does neither. When the ping then fails with end of file,
  the timer wait is still outstanding.
\<close>

theorem heartbeat_expiry_witness:
  "handle_heartbeat example_globals success active_session =
     (active_session,
      [Async_write \<lparr>len = 0, code = 0\<rparr> [] Handle_send_hb, Timer_wait 15 Handle_heartbeat]) \<and>
   handle_heartbeat example_globals success (stop active_session) = (stop active_session, []) \<and>
   run example_globals [Timer_done Handle_heartbeat success, Write_done Handle_send_hb eof]
     active_world
   = Some \<lparr>sess = active_session,
           pending = [Async_read_head Handle_sub_head, Timer_wait 15 Handle_heartbeat],
           trace = [Async_write \<lparr>len = 0, code = 0\<rparr> [] Handle_send_hb,
                    Timer_wait 15 Handle_heartbeat,
                    Call_error \<lparr>ex_code = BADCONNECTION, ex_message = ''End of file''\<rparr>,
                    Call_on_error],
           topics = []\<rparr>"
proof -
  have ok: "\<not> failed success" by (simp add: failed_def success_def)
  have z: "active_session\<lparr>send_head := \<lparr>len = 0, code = 0\<rparr>\<rparr> = active_session"
    by (simp add: active_session_def sub_session_ctor_def head_zero_def)
  have o: "socket_is_open active_session \<and> running_flag active_session"
    by (simp add: active_session_def)
  have c: "\<not> (socket_is_open (stop active_session) \<and> running_flag (stop active_session))"
    by (simp add: stop_def)
  from heartbeat_expiry[OF ok, of example_globals active_session] o z
  have a: "handle_heartbeat example_globals success active_session =
     (active_session,
      [Async_write \<lparr>len = 0, code = 0\<rparr> [] Handle_send_hb, Timer_wait 15 Handle_heartbeat])"
    by simp
  from heartbeat_expiry[OF ok, of example_globals "stop active_session"] c
  have b: "handle_heartbeat example_globals success (stop active_session)
           = (stop active_session, [])"
    by simp
  have r: "run example_globals [Timer_done Handle_heartbeat success, Write_done Handle_send_hb eof]
     active_world
   = Some \<lparr>sess = active_session,
           pending = [Async_read_head Handle_sub_head, Timer_wait 15 Handle_heartbeat],
           trace = [Async_write \<lparr>len = 0, code = 0\<rparr> [] Handle_send_hb,
                    Timer_wait 15 Handle_heartbeat,
                    Call_error \<lparr>ex_code = BADCONNECTION, ex_message = ''End of file''\<rparr>,
                    Call_on_error],
           topics = []\<rparr>"
    by (simp add: step_def active_world_def active_session_def sub_session_ctor_def
        head_zero_def handle_heartbeat_def handle_send_hb_def setup_heartbeat_timer_def
        on_error_def bad_connection_def example_globals_def sub_manager_ctor_def
        success_def eof_def failed_def remove_def get_endpoint_def get_topic_def
        example_endpoint_def)
  from a b r show ?thesis by blast
qed

text \<open>
  C10. When the heartbeat timer wait completes with an error code (a cancelled timer,
  say), \<open>handle_heartbeat\<close> does nothing, whatever the state of the session: no ping,
  no new timer wait, no error callback, no failure hook. The session, with its running
  flag, is as before, the registry too; the completed wait is gone from the outstanding
  operations and the outstanding read of the receive chain is still there.
\<close>

theorem heartbeat_timer_error_ends_chain:
  assumes "failed error"
  shows "handle_heartbeat g error s = (s, []) \<and>
   (\<forall>w'. step g (Timer_done Handle_heartbeat error) w = Some w' \<longrightarrow>
      sess w' = sess w \<and> trace w' = trace w \<and> topics w' = topics w \<and>
      take_out (answers (Timer_done Handle_heartbeat error)) (pending w) = Some (pending w') \<and>
      filter is_read (pending w') = filter is_read (pending w))"
proof -
  have "handle_heartbeat g error s = (s, [])"
    using assms by (simp add: handle_heartbeat_def)
  with step_timer_failed[OF assms] show ?thesis by blast
qed

text \<open>
  The timer wait of the active sample session is cancelled; a two byte message that
  arrives afterwards is still delivered, and no timer wait is outstanding any more.
\<close>

theorem heartbeat_timer_error_ends_chain_witness:
  "handle_heartbeat example_globals operation_aborted active_session = (active_session, []) \<and>
   run example_globals
     [Timer_done Handle_heartbeat operation_aborted,
      Head_read Handle_sub_head success \<lparr>len = 2, code = 0\<rparr>,
      Body_read Handle_sub_body success ''hi'']
     active_world
   = Some \<lparr>sess = active_session\<lparr>recv_head := \<lparr>len = 2, code = 0\<rparr>, response := ''hi''\<rparr>,
           pending = [Async_read_head Handle_sub_head],
           trace = [Async_read_body 2 Handle_sub_body, Call_function ''hi'',
                    Async_read_head Handle_sub_head],
           topics = topics active_world\<rparr>"
proof -
  have f: "failed operation_aborted" by (simp add: failed_def operation_aborted_def)
  from heartbeat_timer_error_ends_chain[OF f, of example_globals active_session]
  have a: "handle_heartbeat example_globals operation_aborted active_session
           = (active_session, [])"
    by blast
  have r: "run example_globals
     [Timer_done Handle_heartbeat operation_aborted,
      Head_read Handle_sub_head success \<lparr>len = 2, code = 0\<rparr>,
      Body_read Handle_sub_body success ''hi'']
     active_world
   = Some \<lparr>sess = active_session\<lparr>recv_head := \<lparr>len = 2, code = 0\<rparr>, response := ''hi''\<rparr>,
           pending = [Async_read_head Handle_sub_head],
           trace = [Async_read_body 2 Handle_sub_body, Call_function ''hi'',
                    Async_read_head Handle_sub_head],
           topics = topics active_world\<rparr>"
    by (simp add: step_def active_world_def active_session_def sub_session_ctor_def
        head_zero_def handle_heartbeat_def handle_sub_head_def handle_sub_body_def
        recv_sub_head_def resize_def success_def operation_aborted_def failed_def)
  from a r show ?thesis by blast
qed

subsection \<open>The handshake\<close>

text \<open>
  C2. The header of the handshake reply arrives with \<open>len = 0\<close> on an open, running
  session and without transport error. \<open>handle_response_sub_head\<close> has no branch for
  it: whatever the result code, the session is unchanged, no timer is started and no
  read is issued.
\<close>

theorem handshake_ack_without_body_stalls:
  assumes "socket_is_open s" "running_flag s" "\<not> failed error" "len (recv_head s) = 0"
  shows "handle_response_sub_head g error s = (s, [])"
  using assms by (simp add: handle_response_sub_head_def)

text \<open>
  The sample session in its handshake receives the header \<open>len = 0\<close>, \<open>code = OK\<close>:
  afterwards nothing is outstanding and nothing has been done.
\<close>

theorem handshake_ack_without_body_stalls_witness:
  "handle_response_sub_head example_globals success
     (active_session\<lparr>recv_head := \<lparr>len = 0, code = result_code_OK\<rparr>\<rparr>)
   = (active_session\<lparr>recv_head := \<lparr>len = 0, code = result_code_OK\<rparr>\<rparr>, []) \<and>
   step example_globals
     (Head_read Handle_response_sub_head success \<lparr>len = 0, code = result_code_OK\<rparr>)
     handshaking_world
   = Some (handshaking_world
       \<lparr>sess := active_session\<lparr>recv_head := \<lparr>len = 0, code = result_code_OK\<rparr>\<rparr>,
        pending := []\<rparr>)"
proof -
  let ?s = "active_session\<lparr>recv_head := \<lparr>len = 0, code = result_code_OK\<rparr>\<rparr>"
  have h: "socket_is_open ?s" "running_flag ?s" "\<not> failed success" "len (recv_head ?s) = 0"
    by (simp_all add: active_session_def failed_def success_def)
  note a = handshake_ack_without_body_stalls[OF h, of example_globals]
  have "step example_globals
     (Head_read Handle_response_sub_head success \<lparr>len = 0, code = result_code_OK\<rparr>)
     handshaking_world
   = Some (handshaking_world\<lparr>sess := ?s, pending := []\<rparr>)"
    by (simp add: step_def handshaking_world_def a)
  with a show ?thesis by blast
qed

lemma handshake_ok_body_begins_sub_procedure:
  assumes "socket_is_open s" "running_flag s" "\<not> failed error"
    and "code (recv_head s) = result_code_OK"
  shows "handle_response_sub_body g error s =
           (s, [Timer_wait 15 Handle_heartbeat, Async_read_head Handle_sub_head])"
  using assms
  by (simp add: handle_response_sub_body_def begin_sub_procedure_def
      setup_heartbeat_timer_def recv_sub_head_def)

subsection \<open>Subscribing twice\<close>

lemma sub_impl_registered:
  assumes "registered m ep t = Some p0"
  shows "sub_impl ep t session m = Inl \<lparr>ex_code = UNKNOWN, ex_message = ''Sub topic already existed!''\<rparr>"
  using assms by (auto simp: sub_impl_def registered_def split: option.splits)

text \<open>A pair that is not registered is inserted, and its session started.\<close>

lemma sub_impl_registers:
  assumes "registered m ep t = None"
  shows "\<exists>m'. sub_impl ep t (p, s) m = Inr (m', start s) \<and> registered m' ep t = Some p \<and>
           (\<forall>ep' t'. (ep', t') \<noteq> (ep, t) \<longrightarrow> registered m' ep' t' = registered m ep' t')"
proof (cases "map_of m ep")
  case None
  then have "sub_impl ep t (p, s) m = Inr (m @ [(ep, [(t, p)])], start s)"
    by (simp add: sub_impl_def emplace_def)
  moreover from None have "map_of (m @ [(ep, [(t, p)])]) = (map_of m)(ep \<mapsto> [(t, p)])"
    by (auto simp: fun_eq_iff map_add_def split: option.splits)
  ultimately show ?thesis using None
    by (auto simp: registered_def split: option.splits)
next
  case (Some b)
  with assms have n: "map_of b t = None" by (simp add: registered_def)
  with Some have "sub_impl ep t (p, s) m = Inr (AList.update ep (b @ [(t, p)]) m, start s)"
    by (simp add: sub_impl_def emplace_def)
  moreover from n have "map_of (b @ [(t, p)]) = (map_of b)(t \<mapsto> p)"
    by (auto simp: fun_eq_iff map_add_def split: option.splits)
  ultimately show ?thesis using Some
    by (auto simp: registered_def AList.update_conv' split: option.splits)
qed

text \<open>
  C3, as the code has it. When a session is registered for the endpoint and the topic,
  \<open>sub\<close> (either overload) throws an exception whose code is \<open>UNKNOWN\<close> and whose
  message is "Sub topic already existed!". No session is started, and the registry is
  as before: the pair still maps to the session registered first.
\<close>

theorem duplicate_sub_throws_unknown:
  assumes "registered m ep (name proto) = Some p0"
  shows "sub p flag0 ep proto m =
           Inl \<lparr>ex_code = UNKNOWN, ex_message = ''Sub topic already existed!''\<rparr> \<and>
         sub_e p flag0 ep proto efunc m =
           Inl \<lparr>ex_code = UNKNOWN, ex_message = ''Sub topic already existed!''\<rparr> \<and>
         subscribed_world (sub p flag0 ep proto m) = None \<and>
         subscribed_world (sub_e p flag0 ep proto efunc m) = None \<and>
         topics_after (sub p flag0 ep proto m) m = m \<and>
         topics_after (sub_e p flag0 ep proto efunc m) m = m \<and>
         registered (topics_after (sub p flag0 ep proto m) m) ep (name proto) = Some p0"
  using assms
  by (simp add: sub_def sub_e_def sub_impl_registered topics_after_def subscribed_world_def)

text \<open>
  The \<open>news\<close> topic is subscribed on an empty registry, then a second time.
\<close>

theorem duplicate_sub_throws_unknown_witness:
  "topics_after (sub 1 False example_endpoint news []) [] = [(example_endpoint, [(''news'', 1)])] \<and>
   registered [(example_endpoint, [(''news'', 1)])] example_endpoint (name news) = Some 1 \<and>
   sub 2 False example_endpoint news [(example_endpoint, [(''news'', 1)])]
     = Inl \<lparr>ex_code = UNKNOWN, ex_message = ''Sub topic already existed!''\<rparr> \<and>
   topics_after (sub 2 False example_endpoint news [(example_endpoint, [(''news'', 1)])])
     [(example_endpoint, [(''news'', 1)])]
     = [(example_endpoint, [(''news'', 1)])]"
proof -
  let ?m = "[(example_endpoint, [(''news'', 1)])]"
  have m: "topics_after (sub 1 False example_endpoint news []) [] = ?m"
    by (simp add: sub_def sub_impl_def make_sub_session_def topics_after_def emplace_def
        news_def start_def)
  have r: "registered ?m example_endpoint (name news) = Some 1"
    by (simp add: registered_def news_def)
  note t = duplicate_sub_throws_unknown[OF r, of 2 False True]
  from t have a: "sub 2 False example_endpoint news ?m
     = Inl \<lparr>ex_code = UNKNOWN, ex_message = ''Sub topic already existed!''\<rparr>"
    by blast
  from t have b: "topics_after (sub 2 False example_endpoint news ?m) ?m = ?m"
    by blast
  from m r a b show ?thesis by blast
qed

text \<open>
  C3 as stated fails: the exception of the second call has the code \<open>UNKNOWN\<close>, not
  a code of its own for a topic that is already subscribed.
\<close>

theorem duplicate_sub_counterexample:
  "sub 2 False example_endpoint news (topics_after (sub 1 False example_endpoint news []) [])
     = Inl \<lparr>ex_code = UNKNOWN, ex_message = ''Sub topic already existed!''\<rparr> \<and>
   ex_code \<lparr>ex_code = UNKNOWN, ex_message = ''Sub topic already existed!''\<rparr> \<noteq> ALREADY_SUBSCRIBED"
  by (simp add: sub_def sub_impl_def make_sub_session_def topics_after_def emplace_def
      example_endpoint_def news_def start_def)

subsection \<open>The error path\<close>

lemma invoke_failed:
  assumes "socket_is_open s" "running_flag s" "failed error" "h \<noteq> Handle_heartbeat"
  shows "invoke g h error s = (s, on_error g s (bad_connection error))"
  using assms
  by (cases h)
     (simp_all add: handle_request_sub_def handle_response_sub_head_def
        handle_response_sub_body_def handle_sub_head_def handle_sub_body_def
        handle_send_hb_def)


lemma on_error_no_async: "filter is_async (on_error g s e) = []"
  by (simp add: on_error_def)

lemma on_error_0_no_async: "filter is_async (on_error_0 g s) = []"
  by (simp add: on_error_0_def on_error_no_async split: option.splits)

lemma invoke_running_flag: "running_flag (fst (invoke g h error s)) = running_flag s"
  by (cases h)
     (simp_all add: handle_request_sub_def handle_response_sub_head_def
        handle_response_sub_body_def handle_sub_head_def handle_sub_body_def
        handle_heartbeat_def handle_send_hb_def)




text \<open>
  No handler changes the running flag, and a handler that takes the error path issues
  no operation of its own; neither overload of \<open>on_error\<close> issues one.
\<close>

lemma error_path_issues_nothing:
  "running_flag (fst (invoke g h error s)) = running_flag s \<and>
   (failed error \<longrightarrow>
      fst (invoke g h error s) = s \<and> filter is_async (snd (invoke g h error s)) = []) \<and>
   (code (recv_head s) \<noteq> result_code_OK \<longrightarrow>
      fst (handle_response_sub_body g error s) = s \<and>
      filter is_async (snd (handle_response_sub_body g error s)) = []) \<and>
   filter is_async (on_error g s e) = [] \<and>
   filter is_async (on_error_0 g s) = []"
proof -
  have a: "fst (invoke g h error s) = s \<and> filter is_async (snd (invoke g h error s)) = []"
    if f: "failed error"
  proof (cases "socket_is_open s \<and> running_flag s")
    case False
    then show ?thesis by (simp add: invoke_not_alive)
  next
    case True
    show ?thesis
    proof (cases "h = Handle_heartbeat")
      case True
      with f show ?thesis by (simp add: handle_heartbeat_def)
    next
      case False
      with True f have "invoke g h error s = (s, on_error g s (bad_connection error))"
        by (simp add: invoke_failed)
      then show ?thesis by (simp add: on_error_no_async)
    qed
  qed
  have b: "fst (handle_response_sub_body g error s) = s \<and>
      filter is_async (snd (handle_response_sub_body g error s)) = []"
    if "code (recv_head s) \<noteq> result_code_OK"
    using that
    by (auto simp: handle_response_sub_body_def on_error_no_async on_error_0_no_async)
  from a b invoke_running_flag[of g h error s] on_error_no_async[of g s e]
    on_error_0_no_async[of g s]
  show ?thesis by blast
qed

text \<open>
  C5. The error path does not stop the session. When a read or a write fails on an
  open, running session, the handler calls \<open>on_error\<close> and returns: the session is
  as before and its running flag is still true, so the next expiry of the heartbeat
  timer writes a ping and re-arms the timer. The same holds when the handshake is
  rejected. \<open>on_error\<close> never calls \<open>stop()\<close>; only the continuation for a failed
  connect does.
\<close>

theorem error_path_leaves_session_running:
  assumes "socket_is_open s" "running_flag s" "failed error" "h \<noteq> Handle_heartbeat"
    and "\<not> failed fired"
  shows "invoke g h error s = (s, on_error g s (bad_connection error)) \<and>
         running_flag (fst (invoke g h error s)) \<and>
         handle_heartbeat g fired (fst (invoke g h error s)) =
           (s\<lparr>send_head := \<lparr>len = 0, code = 0\<rparr>\<rparr>,
            [Async_write \<lparr>len = 0, code = 0\<rparr> [] Handle_send_hb,
             Timer_wait 15 Handle_heartbeat]) \<and>
         (code (recv_head s) \<noteq> result_code_OK \<longrightarrow>
            handle_response_sub_body g fired s = (s, on_error_0 g s) \<and>
            running_flag (fst (handle_response_sub_body g fired s)))"
proof -
  have i: "invoke g h error s = (s, on_error g s (bad_connection error))"
    using assms(1-4) by (rule invoke_failed)
  have r: "running_flag (fst (invoke g h error s))"
    unfolding i using assms(2) by simp
  have b: "handle_heartbeat g fired (fst (invoke g h error s)) =
           (s\<lparr>send_head := \<lparr>len = 0, code = 0\<rparr>\<rparr>,
            [Async_write \<lparr>len = 0, code = 0\<rparr> [] Handle_send_hb,
             Timer_wait 15 Handle_heartbeat])"
    unfolding i using assms(1,2,5)
    by (simp add: handle_heartbeat_def setup_heartbeat_timer_def head_zero_def)
  have c: "handle_response_sub_body g fired s = (s, on_error_0 g s) \<and>
            running_flag (fst (handle_response_sub_body g fired s))"
    if "code (recv_head s) \<noteq> result_code_OK"
    using that assms(1,2,5) by (simp add: handle_response_sub_body_def)
  from i r b c show ?thesis by blast
qed

text \<open>
  The header read of the active sample session fails with end of file: the error
  callback and the hook are called and the entry is removed, but the flag stays true
  and the timer fires, pings and re-arms. A second session is then subscribed to the
  same endpoint and topic. When the ping of the first session fails, its error callback
  is called once more and the hook erases the entry of the second session.
\<close>

theorem error_path_leaves_session_running_witness:
  "invoke example_globals Handle_sub_head eof active_session =
     (active_session,
      [Call_error \<lparr>ex_code = BADCONNECTION, ex_message = ''End of file''\<rparr>, Call_on_error]) \<and>
   running_flag (fst (invoke example_globals Handle_sub_head eof active_session)) \<and>
   run example_globals
     [Head_read Handle_sub_head eof head_zero, Timer_done Handle_heartbeat success]
     active_world
   = Some \<lparr>sess = active_session,
           pending = [Async_write \<lparr>len = 0, code = 0\<rparr> [] Handle_send_hb,
                      Timer_wait 15 Handle_heartbeat],
           trace = [Call_error \<lparr>ex_code = BADCONNECTION, ex_message = ''End of file''\<rparr>,
                    Call_on_error,
                    Async_write \<lparr>len = 0, code = 0\<rparr> [] Handle_send_hb,
                    Timer_wait 15 Handle_heartbeat],
           topics = []\<rparr> \<and>
   topics_after (sub 2 False example_endpoint news []) [] = [(example_endpoint, [(''news'', 2)])] \<and>
   run example_globals [Write_done Handle_send_hb eof]
     \<lparr>sess = active_session,
      pending = [Async_write \<lparr>len = 0, code = 0\<rparr> [] Handle_send_hb,
                 Timer_wait 15 Handle_heartbeat],
      trace = [Call_error \<lparr>ex_code = BADCONNECTION, ex_message = ''End of file''\<rparr>,
               Call_on_error,
               Async_write \<lparr>len = 0, code = 0\<rparr> [] Handle_send_hb,
               Timer_wait 15 Handle_heartbeat],
      topics = [(example_endpoint, [(''news'', 2)])]\<rparr>
   = Some \<lparr>sess = active_session,
           pending = [Timer_wait 15 Handle_heartbeat],
           trace = [Call_error \<lparr>ex_code = BADCONNECTION, ex_message = ''End of file''\<rparr>,
                    Call_on_error,
                    Async_write \<lparr>len = 0, code = 0\<rparr> [] Handle_send_hb,
                    Timer_wait 15 Handle_heartbeat,
                    Call_error \<lparr>ex_code = BADCONNECTION, ex_message = ''End of file''\<rparr>,
                    Call_on_error],
           topics = []\<rparr>"
proof -
  have h: "socket_is_open active_session" "running_flag active_session" "failed eof"
    "Handle_sub_head \<noteq> Handle_heartbeat" "\<not> failed success"
    by (simp_all add: active_session_def failed_def eof_def success_def)
  note t = error_path_leaves_session_running[OF h, of example_globals]
  from t have "invoke example_globals Handle_sub_head eof active_session =
     (active_session, on_error example_globals active_session (bad_connection eof))"
    by blast
  moreover have "on_error example_globals active_session (bad_connection eof) =
     [Call_error \<lparr>ex_code = BADCONNECTION, ex_message = ''End of file''\<rparr>, Call_on_error]"
    by (simp add: on_error_def bad_connection_def eof_def active_session_def
        sub_session_ctor_def example_globals_def sub_manager_ctor_def)
  ultimately have a: "invoke example_globals Handle_sub_head eof active_session =
     (active_session,
      [Call_error \<lparr>ex_code = BADCONNECTION, ex_message = ''End of file''\<rparr>, Call_on_error])"
    by (simp only:)
  from t have b: "running_flag (fst (invoke example_globals Handle_sub_head eof active_session))"
    by blast
  have c: "run example_globals
     [Head_read Handle_sub_head eof head_zero, Timer_done Handle_heartbeat success]
     active_world
   = Some \<lparr>sess = active_session,
           pending = [Async_write \<lparr>len = 0, code = 0\<rparr> [] Handle_send_hb,
                      Timer_wait 15 Handle_heartbeat],
           trace = [Call_error \<lparr>ex_code = BADCONNECTION, ex_message = ''End of file''\<rparr>,
                    Call_on_error,
                    Async_write \<lparr>len = 0, code = 0\<rparr> [] Handle_send_hb,
                    Timer_wait 15 Handle_heartbeat],
           topics = []\<rparr>"
    by (simp add: step_def active_world_def active_session_def sub_session_ctor_def
        head_zero_def handle_heartbeat_def handle_sub_head_def setup_heartbeat_timer_def
        on_error_def bad_connection_def example_globals_def sub_manager_ctor_def
        success_def eof_def failed_def remove_def get_endpoint_def get_topic_def
        example_endpoint_def)
  have d: "topics_after (sub 2 False example_endpoint news []) []
           = [(example_endpoint, [(''news'', 2)])]"
    by (simp add: sub_def sub_impl_def make_sub_session_def topics_after_def emplace_def
        news_def start_def)
  have e: "run example_globals [Write_done Handle_send_hb eof]
     \<lparr>sess = active_session,
      pending = [Async_write \<lparr>len = 0, code = 0\<rparr> [] Handle_send_hb,
                 Timer_wait 15 Handle_heartbeat],
      trace = [Call_error \<lparr>ex_code = BADCONNECTION, ex_message = ''End of file''\<rparr>,
               Call_on_error,
               Async_write \<lparr>len = 0, code = 0\<rparr> [] Handle_send_hb,
               Timer_wait 15 Handle_heartbeat],
      topics = [(example_endpoint, [(''news'', 2)])]\<rparr>
   = Some \<lparr>sess = active_session,
           pending = [Timer_wait 15 Handle_heartbeat],
           trace = [Call_error \<lparr>ex_code = BADCONNECTION, ex_message = ''End of file''\<rparr>,
                    Call_on_error,
                    Async_write \<lparr>len = 0, code = 0\<rparr> [] Handle_send_hb,
                    Timer_wait 15 Handle_heartbeat,
                    Call_error \<lparr>ex_code = BADCONNECTION, ex_message = ''End of file''\<rparr>,
                    Call_on_error],
           topics = []\<rparr>"
    by (simp add: step_def active_session_def sub_session_ctor_def
        head_zero_def handle_send_hb_def
        on_error_def bad_connection_def example_globals_def sub_manager_ctor_def
        eof_def failed_def remove_def get_endpoint_def get_topic_def
        example_endpoint_def)
  from a b c d e show ?thesis by blast
qed

subsection \<open>The receive chain\<close>

lemma answers_read:
  "\<forall>a. answers (Head_read k error h) a \<longrightarrow> is_read a"
  "\<forall>a. answers (Body_read k error bs) a \<longrightarrow> is_read a"
proof -
  show "\<forall>a. answers (Head_read k error h) a \<longrightarrow> is_read a"
  proof (intro allI impI)
    fix a assume "answers (Head_read k error h) a"
    then show "is_read a" by (cases a) simp_all
  qed
  show "\<forall>a. answers (Body_read k error bs) a \<longrightarrow> is_read a"
  proof (intro allI impI)
    fix a assume "answers (Body_read k error bs) a"
    then show "is_read a" by (cases a) simp_all
  qed
qed

lemma length_resize: "length (resize v n) = n"
  by (simp add: resize_def)

text \<open>A completed read whose handler issues the actions acts, one of them a read or none.\<close>

lemma step_read:
  assumes rd: "filter is_read (pending w) = [a]"
    and ans: "answers c a"
    and rdc: "\<forall>x. answers c x \<longrightarrow> is_read x"
    and re: "react g c (deposit c (sess w)) = (s', acts)"
  shows "\<exists>w'. step g c w = Some w' \<and> sess w' = s' \<and> trace w' = trace w @ acts \<and>
           topics w' = fire_hooks s' acts (topics w) \<and>
           filter is_read (pending w') = filter is_read acts"
proof -
  from rdc have "\<And>x. answers c x \<Longrightarrow> is_read x" by blast
  from take_out_only[where Q = is_read and P = "answers c", OF rd ans this] obtain ys where
    t: "take_out (answers c) (pending w) = Some ys" and e: "filter is_read ys = []"
    by blast
  have "filter is_read (filter is_async acts) = filter is_read acts"
  proof (induction acts)
    case Nil
    then show ?case by simp
  next
    case (Cons x xs)
    then show ?case by (cases x) simp_all
  qed
  with t e re show ?thesis by (simp add: step_def)
qed

lemma step_sub_head_body:
  assumes "active w" "\<not> failed error" "0 < len h"
  shows "\<exists>w'. step g (Head_read Handle_sub_head error h) w = Some w' \<and>
     sess w' = (sess w)\<lparr>recv_head := h, response := resize (response (sess w)) (unat (len h))\<rparr> \<and>
     trace w' = trace w @ [Async_read_body (unat (len h)) Handle_sub_body] \<and>
     topics w' = topics w \<and>
     filter is_read (pending w') = [Async_read_body (unat (len h)) Handle_sub_body]"
proof -
  let ?c = "Head_read Handle_sub_head error h"
  from assms(1) have rd: "filter is_read (pending w) = [Async_read_head Handle_sub_head]"
    and al: "socket_is_open (sess w)" "running_flag (sess w)"
    by (simp_all add: active_def)
  have re: "react g ?c (deposit ?c (sess w)) =
     ((sess w)\<lparr>recv_head := h, response := resize (response (sess w)) (unat (len h))\<rparr>,
      [Async_read_body (unat (len h)) Handle_sub_body])"
    using al assms(2,3) by (simp add: handle_sub_head_def)
  have an: "answers ?c (Async_read_head Handle_sub_head)" by simp
  from step_read[OF rd an answers_read(1) re] show ?thesis by simp
qed

lemma step_sub_head_empty:
  assumes "active w" "\<not> failed error" "len h = 0"
  shows "\<exists>w'. step g (Head_read Handle_sub_head error h) w = Some w' \<and>
     sess w' = (sess w)\<lparr>recv_head := h\<rparr> \<and>
     trace w' = trace w @ [Async_read_head Handle_sub_head] \<and>
     topics w' = topics w \<and> active w'"
proof -
  let ?c = "Head_read Handle_sub_head error h"
  from assms(1) have rd: "filter is_read (pending w) = [Async_read_head Handle_sub_head]"
    and al: "socket_is_open (sess w)" "running_flag (sess w)"
    by (simp_all add: active_def)
  have re: "react g ?c (deposit ?c (sess w)) =
     ((sess w)\<lparr>recv_head := h\<rparr>, [Async_read_head Handle_sub_head])"
    using al assms(2,3) by (simp add: handle_sub_head_def recv_sub_head_def)
  have an: "answers ?c (Async_read_head Handle_sub_head)" by simp
  from step_read[OF rd an answers_read(1) re] al show ?thesis
    by (auto simp: active_def)
qed

lemma step_sub_body:
  assumes al: "socket_is_open (sess w)" "running_flag (sess w)"
    and rd: "filter is_read (pending w) = [Async_read_body n Handle_sub_body]"
    and ok: "\<not> failed error"
    and ln: "length bs = n" "length (response (sess w)) = n"
  shows "\<exists>w'. step g (Body_read Handle_sub_body error bs) w = Some w' \<and>
     sess w' = (sess w)\<lparr>response := bs\<rparr> \<and>
     trace w' = trace w @ (if function_set (sess w) then [Call_function bs] else []) @
                 [Async_read_head Handle_sub_head] \<and>
     topics w' = topics w \<and> active w'"
proof -
  let ?c = "Body_read Handle_sub_body error bs"
  have re: "react g ?c (deposit ?c (sess w)) =
     ((sess w)\<lparr>response := bs\<rparr>,
      (if function_set (sess w) then [Call_function bs] else []) @
      [Async_read_head Handle_sub_head])"
    using al ok ln by (simp add: handle_sub_body_def recv_sub_head_def)
  have an: "answers ?c (Async_read_body n Handle_sub_body)" using ok ln by simp
  from step_read[OF rd an answers_read(2) re] al show ?thesis
    by (auto simp: active_def)
qed

text \<open>One frame with a body, one frame without.\<close>

lemma message_frame:
  assumes "active w" "\<not> failed error" "0 < len h" "length bs = unat (len h)"
  shows "\<exists>w'. run g [Head_read Handle_sub_head error h, Body_read Handle_sub_body error bs] w
               = Some w' \<and>
     sess w' = (sess w)\<lparr>recv_head := h, response := bs\<rparr> \<and>
     trace w' = trace w @ [Async_read_body (unat (len h)) Handle_sub_body] @
                 (if function_set (sess w) then [Call_function bs] else []) @
                 [Async_read_head Handle_sub_head] \<and>
     topics w' = topics w \<and> active w'"
proof -
  from step_sub_head_body[OF assms(1,2,3), of g] obtain w1 where
    s1: "step g (Head_read Handle_sub_head error h) w = Some w1"
    and e1: "sess w1 = (sess w)\<lparr>recv_head := h,
               response := resize (response (sess w)) (unat (len h))\<rparr>"
    and t1: "trace w1 = trace w @ [Async_read_body (unat (len h)) Handle_sub_body]"
    and m1: "topics w1 = topics w"
    and r1: "filter is_read (pending w1) = [Async_read_body (unat (len h)) Handle_sub_body]"
    by blast
  from assms(1) e1 have al: "socket_is_open (sess w1)" "running_flag (sess w1)"
    by (simp_all add: active_def)
  from e1 have ln: "length (response (sess w1)) = unat (len h)"
    by (simp add: length_resize)
  from step_sub_body[OF al r1 assms(2) assms(4) ln, of g] obtain w2 where
    s2: "step g (Body_read Handle_sub_body error bs) w1 = Some w2"
    and e2: "sess w2 = (sess w1)\<lparr>response := bs\<rparr>"
    and t2: "trace w2 = trace w1 @ (if function_set (sess w1) then [Call_function bs] else []) @
                 [Async_read_head Handle_sub_head]"
    and m2: "topics w2 = topics w1" and a2: "active w2"
    by blast
  from s1 s2 have "run g [Head_read Handle_sub_head error h, Body_read Handle_sub_body error bs] w
               = Some w2" by simp
  moreover from e1 e2 have "sess w2 = (sess w)\<lparr>recv_head := h, response := bs\<rparr>" by simp
  moreover from t1 t2 e1 have "trace w2 = trace w @ [Async_read_body (unat (len h)) Handle_sub_body] @
                 (if function_set (sess w) then [Call_function bs] else []) @
                 [Async_read_head Handle_sub_head]" by simp
  ultimately show ?thesis using m1 m2 a2 by simp
qed

lemma run_append:
  "run g (cs @ ds) w = (case run g cs w of None \<Rightarrow> None | Some w' \<Rightarrow> run g ds w')"
  by (induction cs arbitrary: w) (auto split: option.splits)

text \<open>
  C6. An active session whose message callback is set receives, without transport
  error, a frame of 37 bytes, a frame without body and a frame of 12 bytes. It calls the
  message callback twice, first with the 37 bytes, then with the 12 bytes, and calls
  nothing else; the frame without body is dropped; after each of the three frames the
  header read is issued again, and the session is active as before.
\<close>

theorem three_frames_two_messages:
  assumes "active w" "function_set (sess w)" "\<not> failed error"
    and "length b1 = 37" "length b2 = 12"
  shows "\<exists>w'. run g [Head_read Handle_sub_head error \<lparr>len = 37, code = c1\<rparr>,
                     Body_read Handle_sub_body error b1,
                     Head_read Handle_sub_head error \<lparr>len = 0, code = c2\<rparr>,
                     Head_read Handle_sub_head error \<lparr>len = 12, code = c3\<rparr>,
                     Body_read Handle_sub_body error b2] w = Some w' \<and>
     trace w' = trace w @
       [Async_read_body 37 Handle_sub_body, Call_function b1, Async_read_head Handle_sub_head,
        Async_read_head Handle_sub_head,
        Async_read_body 12 Handle_sub_body, Call_function b2, Async_read_head Handle_sub_head] \<and>
     filter is_callback (drop (length (trace w)) (trace w')) = [Call_function b1, Call_function b2] \<and>
     topics w' = topics w \<and> active w'"
proof -
  let ?f1 = "[Head_read Handle_sub_head error \<lparr>len = 37, code = c1\<rparr>,
              Body_read Handle_sub_body error b1]"
  let ?f2 = "[Head_read Handle_sub_head error \<lparr>len = 0, code = c2\<rparr>]"
  let ?f3 = "[Head_read Handle_sub_head error \<lparr>len = 12, code = c3\<rparr>,
              Body_read Handle_sub_body error b2]"
  from message_frame[OF assms(1,3), of "\<lparr>len = 37, code = c1\<rparr>" b1 g] assms(2,4)
  obtain w1 where r1: "run g ?f1 w = Some w1"
    and t1: "trace w1 = trace w @ [Async_read_body 37 Handle_sub_body, Call_function b1,
                                   Async_read_head Handle_sub_head]"
    and m1: "topics w1 = topics w" and a1: "active w1"
    and f1: "function_set (sess w1)"
    by auto
  from step_sub_head_empty[OF a1 assms(3), of "\<lparr>len = 0, code = c2\<rparr>" g] f1
  obtain w2 where r2: "run g ?f2 w1 = Some w2"
    and t2: "trace w2 = trace w1 @ [Async_read_head Handle_sub_head]"
    and m2: "topics w2 = topics w1" and a2: "active w2"
    and f2: "function_set (sess w2)"
    by auto
  from message_frame[OF a2 assms(3), of "\<lparr>len = 12, code = c3\<rparr>" b2 g] f2 assms(5)
  obtain w3 where r3: "run g ?f3 w2 = Some w3"
    and t3: "trace w3 = trace w2 @ [Async_read_body 12 Handle_sub_body, Call_function b2,
                                   Async_read_head Handle_sub_head]"
    and m3: "topics w3 = topics w2" and a3: "active w3"
    by auto
  from r1 r2 r3 have "run g (?f1 @ ?f2 @ ?f3) w = Some w3"
    by (simp only: run_append option.case)
  then have "run g [Head_read Handle_sub_head error \<lparr>len = 37, code = c1\<rparr>,
                     Body_read Handle_sub_body error b1,
                     Head_read Handle_sub_head error \<lparr>len = 0, code = c2\<rparr>,
                     Head_read Handle_sub_head error \<lparr>len = 12, code = c3\<rparr>,
                     Body_read Handle_sub_body error b2] w = Some w3"
    by simp
  moreover from t1 t2 t3 have "trace w3 = trace w @
       [Async_read_body 37 Handle_sub_body, Call_function b1, Async_read_head Handle_sub_head,
        Async_read_head Handle_sub_head,
        Async_read_body 12 Handle_sub_body, Call_function b2, Async_read_head Handle_sub_head]"
    by simp
  ultimately show ?thesis using m1 m2 m3 a3 by simp
qed

text \<open>The active sample session receives 37 times \<open>a\<close>, a heartbeat reply, 12 times \<open>b\<close>.\<close>

theorem three_frames_two_messages_witness:
  "active active_world \<and> function_set (sess active_world) \<and>
   run example_globals
     [Head_read Handle_sub_head success \<lparr>len = 37, code = 0\<rparr>,
      Body_read Handle_sub_body success (replicate 37 CHR ''a''),
      Head_read Handle_sub_head success \<lparr>len = 0, code = 0\<rparr>,
      Head_read Handle_sub_head success \<lparr>len = 12, code = 0\<rparr>,
      Body_read Handle_sub_body success (replicate 12 CHR ''b'')]
     active_world
   = Some \<lparr>sess = active_session\<lparr>recv_head := \<lparr>len = 12, code = 0\<rparr>,
                                 response := replicate 12 CHR ''b''\<rparr>,
           pending = [Timer_wait 15 Handle_heartbeat, Async_read_head Handle_sub_head],
           trace = [Async_read_body 37 Handle_sub_body, Call_function (replicate 37 CHR ''a''),
                    Async_read_head Handle_sub_head,
                    Async_read_head Handle_sub_head,
                    Async_read_body 12 Handle_sub_body, Call_function (replicate 12 CHR ''b''),
                    Async_read_head Handle_sub_head],
           topics = topics active_world\<rparr>"
proof -
  have a: "active active_world" "function_set (sess active_world)"
    by (simp_all add: active_def active_world_def active_session_def sub_session_ctor_def)
  have ok: "\<not> failed success" by (simp add: failed_def success_def)
  have l: "length (replicate 37 CHR ''a'') = 37" "length (replicate 12 CHR ''b'') = 12"
    by simp_all
  from three_frames_two_messages[OF a ok l, of example_globals 0 0 0]
  obtain w' where
    r: "run example_globals
     [Head_read Handle_sub_head success \<lparr>len = 37, code = 0\<rparr>,
      Body_read Handle_sub_body success (replicate 37 CHR ''a''),
      Head_read Handle_sub_head success \<lparr>len = 0, code = 0\<rparr>,
      Head_read Handle_sub_head success \<lparr>len = 12, code = 0\<rparr>,
      Body_read Handle_sub_body success (replicate 12 CHR ''b'')]
     active_world = Some w'"
    and t: "trace w' = trace active_world @
       [Async_read_body 37 Handle_sub_body, Call_function (replicate 37 CHR ''a''),
        Async_read_head Handle_sub_head,
        Async_read_head Handle_sub_head,
        Async_read_body 12 Handle_sub_body, Call_function (replicate 12 CHR ''b''),
        Async_read_head Handle_sub_head]"
    and m: "topics w' = topics active_world"
    by blast
  have e: "run example_globals
     [Head_read Handle_sub_head success \<lparr>len = 37, code = 0\<rparr>,
      Body_read Handle_sub_body success (replicate 37 CHR ''a''),
      Head_read Handle_sub_head success \<lparr>len = 0, code = 0\<rparr>,
      Head_read Handle_sub_head success \<lparr>len = 12, code = 0\<rparr>,
      Body_read Handle_sub_body success (replicate 12 CHR ''b'')]
     active_world
   = Some \<lparr>sess = active_session\<lparr>recv_head := \<lparr>len = 12, code = 0\<rparr>,
                                 response := replicate 12 CHR ''b''\<rparr>,
           pending = [Timer_wait 15 Handle_heartbeat, Async_read_head Handle_sub_head],
           trace = [Async_read_body 37 Handle_sub_body, Call_function (replicate 37 CHR ''a''),
                    Async_read_head Handle_sub_head,
                    Async_read_head Handle_sub_head,
                    Async_read_body 12 Handle_sub_body, Call_function (replicate 12 CHR ''b''),
                    Async_read_head Handle_sub_head],
           topics = topics active_world\<rparr>"
    by (simp add: step_def active_world_def active_session_def sub_session_ctor_def
        head_zero_def handle_sub_head_def handle_sub_body_def recv_sub_head_def
        resize_def success_def failed_def)
  from a e show ?thesis by blast
qed

subsection \<open>A rejected handshake\<close>

lemma step_response_sub_head_body:
  assumes "handshaking w" "\<not> failed error" "0 < len h"
  shows "\<exists>w'. step g (Head_read Handle_response_sub_head error h) w = Some w' \<and>
     sess w' = (sess w)\<lparr>recv_head := h, response := resize (response (sess w)) (unat (len h))\<rparr> \<and>
     trace w' = trace w @ [Async_read_body (unat (len h)) Handle_response_sub_body] \<and>
     topics w' = topics w \<and>
     filter is_read (pending w') = [Async_read_body (unat (len h)) Handle_response_sub_body]"
proof -
  let ?c = "Head_read Handle_response_sub_head error h"
  from assms(1) have rd: "filter is_read (pending w) = [Async_read_head Handle_response_sub_head]"
    and al: "socket_is_open (sess w)" "running_flag (sess w)"
    by (simp_all add: handshaking_def)
  have re: "react g ?c (deposit ?c (sess w)) =
     ((sess w)\<lparr>recv_head := h, response := resize (response (sess w)) (unat (len h))\<rparr>,
      [Async_read_body (unat (len h)) Handle_response_sub_body])"
    using al assms(2,3) by (simp add: handle_response_sub_head_def)
  have an: "answers ?c (Async_read_head Handle_response_sub_head)" by simp
  from step_read[OF rd an answers_read(1) re] show ?thesis by simp
qed

lemma step_response_sub_body_rejected:
  assumes al: "socket_is_open (sess w)" "running_flag (sess w)"
    and rd: "filter is_read (pending w) = [Async_read_body n Handle_response_sub_body]"
    and ok: "\<not> failed error"
    and ln: "length bs = n" "length (response (sess w)) = n"
    and rej: "code (recv_head (sess w)) \<noteq> result_code_OK"
  shows "\<exists>w'. step (sub_manager_ctor unpack g) (Body_read Handle_response_sub_body error bs) w
               = Some w' \<and>
     sess w' = (sess w)\<lparr>response := bs\<rparr> \<and>
     trace w' = trace w @ (if error_set (sess w) then [Call_error (unpack bs)] else []) @
                 [Call_on_error] \<and>
     topics w' = remove (sess w') (topics w) \<and>
     filter is_read (pending w') = []"
proof -
  let ?c = "Body_read Handle_response_sub_body error bs"
  let ?g = "sub_manager_ctor unpack g"
  have re: "react ?g ?c (deposit ?c (sess w)) =
     ((sess w)\<lparr>response := bs\<rparr>,
      (if error_set (sess w) then [Call_error (unpack bs)] else []) @ [Call_on_error])"
    using al ok ln rej
    by (auto simp: handle_response_sub_body_def on_error_0_def on_error_def sub_manager_ctor_def)
  have an: "answers ?c (Async_read_body n Handle_response_sub_body)" using ok ln by simp
  from step_read[OF rd an answers_read(2) re] show ?thesis by auto
qed

text \<open>
  C7. A session in its handshake, under a manager that has installed its hooks, receives
  a reply header with a result code other than OK and \<open>len > 0\<close>, then the body
  \<open>B\<close>. It reads the body, calls \<open>error_\<close>, if set, with the exception that the
  codec unpacks from \<open>B\<close>, and calls the failure hook; the registry then has no entry
  for the session's endpoint and topic, and no read is outstanding.
\<close>

theorem rejected_handshake_reports_exception:
  assumes "handshaking w" "\<not> failed error" "0 < len h" "code h \<noteq> result_code_OK"
    and "length B = unat (len h)"
  shows "\<exists>w'. run (sub_manager_ctor unpack g)
                 [Head_read Handle_response_sub_head error h,
                  Body_read Handle_response_sub_body error B] w = Some w' \<and>
     trace w' = trace w @ [Async_read_body (unat (len h)) Handle_response_sub_body] @
                 (if error_set (sess w) then [Call_error (unpack B)] else []) @
                 [Call_on_error] \<and>
     topics w' = remove (sess w') (topics w) \<and>
     registered (topics w') (get_endpoint (sess w)) (get_topic (sess w)) = None \<and>
     filter is_read (pending w') = []"
proof -
  let ?g = "sub_manager_ctor unpack g"
  from step_response_sub_head_body[OF assms(1,2,3), of ?g] obtain w1 where
    s1: "step ?g (Head_read Handle_response_sub_head error h) w = Some w1"
    and e1: "sess w1 = (sess w)\<lparr>recv_head := h,
               response := resize (response (sess w)) (unat (len h))\<rparr>"
    and t1: "trace w1 = trace w @ [Async_read_body (unat (len h)) Handle_response_sub_body]"
    and m1: "topics w1 = topics w"
    and r1: "filter is_read (pending w1) = [Async_read_body (unat (len h)) Handle_response_sub_body]"
    by blast
  from assms(1) e1 have al: "socket_is_open (sess w1)" "running_flag (sess w1)"
    by (simp_all add: handshaking_def)
  from e1 have ln: "length (response (sess w1)) = unat (len h)"
    by (simp add: length_resize)
  from e1 assms(4) have rej: "code (recv_head (sess w1)) \<noteq> result_code_OK" by simp
  from step_response_sub_body_rejected[OF al r1 assms(2) assms(5) ln rej, of unpack g]
  obtain w2 where
    s2: "step ?g (Body_read Handle_response_sub_body error B) w1 = Some w2"
    and e2: "sess w2 = (sess w1)\<lparr>response := B\<rparr>"
    and t2: "trace w2 = trace w1 @ (if error_set (sess w1) then [Call_error (unpack B)] else []) @
                 [Call_on_error]"
    and m2: "topics w2 = remove (sess w2) (topics w1)"
    and r2: "filter is_read (pending w2) = []"
    by blast
  from s1 s2 have r: "run ?g [Head_read Handle_response_sub_head error h,
                  Body_read Handle_response_sub_body error B] w = Some w2" by simp
  from t1 t2 e1 have t: "trace w2 = trace w @ [Async_read_body (unat (len h)) Handle_response_sub_body] @
                 (if error_set (sess w) then [Call_error (unpack B)] else []) @
                 [Call_on_error]" by simp
  from m1 m2 have m: "topics w2 = remove (sess w2) (topics w)" by simp
  from e1 e2 have "get_endpoint (sess w2) = get_endpoint (sess w)"
    "get_topic (sess w2) = get_topic (sess w)"
    by (simp_all add: get_endpoint_def get_topic_def)
  with m registered_remove[of "sess w2" "topics w" "get_endpoint (sess w)" "get_topic (sess w)"]
  have g: "registered (topics w2) (get_endpoint (sess w)) (get_topic (sess w)) = None"
    by simp
  from r t m g r2 show ?thesis by blast
qed

text \<open>The sample session is refused with the six bytes \<open>Denied\<close>.\<close>

theorem rejected_handshake_reports_exception_witness:
  "handshaking handshaking_world \<and>
   run example_globals
     [Head_read Handle_response_sub_head success \<lparr>len = 6, code = 1\<rparr>,
      Body_read Handle_response_sub_body success ''Denied'']
     handshaking_world
   = Some \<lparr>sess = active_session\<lparr>recv_head := \<lparr>len = 6, code = 1\<rparr>, response := ''Denied''\<rparr>,
           pending = [],
           trace = [Async_read_body 6 Handle_response_sub_body,
                    Call_error \<lparr>ex_code = SERVER_REJECTED, ex_message = ''Denied''\<rparr>,
                    Call_on_error],
           topics = []\<rparr> \<and>
   registered [] (get_endpoint (sess handshaking_world)) (get_topic (sess handshaking_world)) = None"
proof -
  let ?W = "\<lparr>sess = active_session\<lparr>recv_head := \<lparr>len = 6, code = 1\<rparr>, response := ''Denied''\<rparr>,
           pending = [],
           trace = [Async_read_body 6 Handle_response_sub_body,
                    Call_error \<lparr>ex_code = SERVER_REJECTED, ex_message = ''Denied''\<rparr>,
                    Call_on_error],
           topics = []\<rparr>"
  have h: "handshaking handshaking_world"
    by (simp add: handshaking_def handshaking_world_def active_session_def)
  have ok: "\<not> failed success" by (simp add: failed_def success_def)
  have l: "0 < len \<lparr>len = 6, code = 1\<rparr>" "code \<lparr>len = 6, code = 1\<rparr> \<noteq> result_code_OK"
    "length ''Denied'' = unat (len \<lparr>len = 6, code = 1\<rparr>)"
    by (simp_all add: result_code_OK_def)
  have r: "run example_globals
     [Head_read Handle_response_sub_head success \<lparr>len = 6, code = 1\<rparr>,
      Body_read Handle_response_sub_body success ''Denied'']
     handshaking_world = Some ?W"
    by (simp add: step_def handshaking_world_def active_session_def sub_session_ctor_def
        head_zero_def handle_response_sub_head_def handle_response_sub_body_def
        on_error_0_def on_error_def example_globals_def sub_manager_ctor_def example_unpack_def
        resize_def result_code_OK_def success_def failed_def remove_def get_endpoint_def
        get_topic_def example_endpoint_def)
  from rejected_handshake_reports_exception[OF h ok l, of example_unpack
      "\<lparr>sub_topic_name = ''sub_topic'', on_error_func_set = False, deserialize_exception = None\<rparr>",
      folded example_globals_def]
  obtain w' where
    o1: "run example_globals
     [Head_read Handle_response_sub_head success \<lparr>len = 6, code = 1\<rparr>,
      Body_read Handle_response_sub_body success ''Denied'']
     handshaking_world = Some w'"
    and o2: "registered (topics w') (get_endpoint (sess handshaking_world))
       (get_topic (sess handshaking_world)) = None"
    by blast
  from o1 have "Some ?W = Some w'" unfolding r .
  then have eq: "w' = ?W" by simp
  from o2 have "registered (topics ?W) (get_endpoint (sess handshaking_world))
       (get_topic (sess handshaking_world)) = None"
    unfolding eq .
  then have "registered [] (get_endpoint (sess handshaking_world))
       (get_topic (sess handshaking_world)) = None"
    by simp
  with h r show ?thesis by blast
qed

end
